theory Spec2Isabelle
  imports Main "HOL-Library.Word"
begin

section \<open>The in-memory Todo repository of go-todo\<close>

text \<open>
  The source holds two variants of the service. The richer one keeps its records in a
  \<^verbatim>\<open>TodoRepository\<close> (a map from ids to \<^verbatim>\<open>Todo\<close> values and a counter
  \<^verbatim>\<open>nextID\<close>, both behind one \<^verbatim>\<open>sync.RWMutex\<close>); the minimal one keeps the same
  two fields inside its HTTP handler. Every method takes the lock on entry and releases it
  on return, so a method is one atomic step on the state and is modelled as a function
  from the state before the call to the result and the state after it.

  \<^item> Go's \<^verbatim>\<open>uint\<close> is a machine integer, and \<^verbatim>\<open>nextID++\<close> wraps around at its width:
    64 bits on the usual targets (32 on 32-bit ones). It is modelled as \<open>64 word\<close>.
  \<^item> A \<^verbatim>\<open>time.Time\<close> is modelled as an integer (a count of clock ticks), the zero
    \<^verbatim>\<open>time.Time{}\<close> as \<open>0\<close>. The value \<^verbatim>\<open>time.Now()\<close> returns during a call is an
    argument \<open>now\<close> of the modelled method.
  \<^item> Go's \<^verbatim>\<open>error\<close> results are \<open>error option\<close>: \<open>None\<close> is \<^verbatim>\<open>nil\<close>.
\<close>

type_synonym uint = "64 word"
type_synonym time = int

subsection \<open>Data model\<close>

record Todo =
  ID :: uint
  Title :: string
  Completed :: bool
  CreatedAt :: time
  UpdatedAt :: time

text \<open>The zero value \<^verbatim>\<open>Todo{}\<close>, which the methods return beside an error.\<close>

definition Todo_zero :: Todo where
  "Todo_zero = \<lparr>ID = 0, Title = [], Completed = False, CreatedAt = 0, UpdatedAt = 0\<rparr>"

datatype error = errors_New string

abbreviation NotFound :: error where
  "NotFound \<equiv> errors_New ''todo not found''"

record TodoRepository =
  todos :: "uint \<rightharpoonup> Todo"
  nextID :: uint

subsection \<open>Repository operations\<close>

text \<open>
  \<^verbatim>\<open>NewTodoRepository\<close>, \<^verbatim>\<open>FindByID\<close>, \<^verbatim>\<open>Create\<close>, \<^verbatim>\<open>Update\<close> and \<^verbatim>\<open>Delete\<close> of
  \<^verbatim>\<open>src/main.go\<close> (lines 193 to 271), statement by statement. \<^verbatim>\<open>FindByID\<close> holds the
  read lock and writes nothing; it returns the state it was given. \<^verbatim>\<open>FindAll\<close> lists the
  records in the unspecified order of Go's map iteration; nothing below depends on it.
\<close>

definition NewTodoRepository :: TodoRepository where
  "NewTodoRepository = \<lparr>todos = Map.empty, nextID = 1\<rparr>"

definition FindByID :: "uint \<Rightarrow> TodoRepository \<Rightarrow> (Todo \<times> error option) \<times> TodoRepository" where
  "FindByID i r =
     (case todos r i of
        None \<Rightarrow> ((Todo_zero, Some NotFound), r)
      | Some todo \<Rightarrow> ((todo, None), r))"

definition Create :: "time \<Rightarrow> Todo \<Rightarrow> TodoRepository \<Rightarrow> Todo \<times> TodoRepository" where
  "Create now todo r =
     (let todo = todo\<lparr>ID := nextID r\<rparr>;
          todo = todo\<lparr>CreatedAt := now\<rparr>;
          todo = todo\<lparr>UpdatedAt := now\<rparr>;
          r = r\<lparr>todos := (todos r)(ID todo \<mapsto> todo)\<rparr>;
          r = r\<lparr>nextID := nextID r + 1\<rparr>
      in (todo, r))"

definition Update :: "time \<Rightarrow> uint \<Rightarrow> Todo \<Rightarrow> TodoRepository \<Rightarrow> (Todo \<times> error option) \<times> TodoRepository" where
  "Update now i todo r =
     (case todos r i of
        None \<Rightarrow> ((Todo_zero, Some NotFound), r)
      | Some existing \<Rightarrow>
          (let existing = (if Title todo \<noteq> [] then existing\<lparr>Title := Title todo\<rparr> else existing);
               existing = existing\<lparr>Completed := Completed todo\<rparr>;
               existing = existing\<lparr>UpdatedAt := now\<rparr>;
               r = r\<lparr>todos := (todos r)(i \<mapsto> existing)\<rparr>
           in ((existing, None), r)))"

definition Delete :: "uint \<Rightarrow> TodoRepository \<Rightarrow> error option \<times> TodoRepository" where
  "Delete i r =
     (case todos r i of
        None \<Rightarrow> (Some NotFound, r)
      | Some _ \<Rightarrow> (None, r\<lparr>todos := (todos r)(i := None)\<rparr>))"

subsection \<open>Sequences of calls\<close>

text \<open>
  A client of the repository issues calls one after the other; under the lock, concurrent
  calls take effect in some such order. A call carries its arguments and, where the method
  reads the clock, the time it reads.
\<close>

datatype call =
    CallCreate time Todo
  | CallFindByID uint
  | CallUpdate time uint Todo
  | CallDelete uint

datatype reply =
    Created Todo
  | Found Todo "error option"
  | Updated Todo "error option"
  | Deleted "error option"

fun step :: "call \<Rightarrow> TodoRepository \<Rightarrow> reply \<times> TodoRepository" where
  "step (CallCreate now todo) r = (case Create now todo r of (t, r') \<Rightarrow> (Created t, r'))"
| "step (CallFindByID i) r = (case FindByID i r of ((t, e), r') \<Rightarrow> (Found t e, r'))"
| "step (CallUpdate now i todo) r = (case Update now i todo r of ((t, e), r') \<Rightarrow> (Updated t e, r'))"
| "step (CallDelete i) r = (case Delete i r of (e, r') \<Rightarrow> (Deleted e, r'))"

fun run :: "call list \<Rightarrow> TodoRepository \<Rightarrow> reply list \<times> TodoRepository" where
  "run [] r = ([], r)"
| "run (c # cs) r =
     (case step c r of (x, r') \<Rightarrow> (case run cs r' of (xs, r'') \<Rightarrow> (x # xs, r'')))"

definition replies :: "call list \<Rightarrow> reply list" where
  "replies cs = fst (run cs NewTodoRepository)"

definition final :: "call list \<Rightarrow> TodoRepository" where
  "final cs = snd (run cs NewTodoRepository)"

fun is_Create :: "call \<Rightarrow> bool" where
  "is_Create (CallCreate _ _) = True"
| "is_Create _ = False"

fun is_Update :: "call \<Rightarrow> bool" where
  "is_Update (CallUpdate _ _ _) = True"
| "is_Update _ = False"

definition creates :: "call list \<Rightarrow> nat" where
  "creates cs = length (filter is_Create cs)"

fun created_ids :: "reply list \<Rightarrow> uint list" where
  "created_ids [] = []"
| "created_ids (Created t # xs) = ID t # created_ids xs"
| "created_ids (_ # xs) = created_ids xs"

subsection \<open>The HTTP handler in front of the repository\<close>

text \<open>
  \<^verbatim>\<open>CreateTodo\<close> of the richer variant binds the request body to a \<^verbatim>\<open>Todo\<close> with
  \<^verbatim>\<open>c.ShouldBindJSON\<close> (the field \<^verbatim>\<open>Title\<close> is tagged \<^verbatim>\<open>binding:"required"\<close>) and calls
  \<^verbatim>\<open>Create\<close> only when the binding returned no error. The binding belongs to the web
  framework, so its outcome is an argument here: \<open>Inl\<close> the error's text, or \<open>Inr\<close> the
  bound record (lines 307 to 316 of \<^verbatim>\<open>src/main.go\<close>). A response is its status code and
  its body.
\<close>

datatype body = H_error string | JSON_Todo Todo

type_synonym response = "nat \<times> body"

definition CreateTodo :: "string + Todo \<Rightarrow> time \<Rightarrow> TodoRepository \<Rightarrow> response \<times> TodoRepository" where
  "CreateTodo bound now repo =
     (case bound of
        Inl err \<Rightarrow> ((400, H_error err), repo)
      | Inr todo \<Rightarrow>
          (case Create now todo repo of
             (createdTodo, repo') \<Rightarrow> ((201, JSON_Todo createdTodo), repo')))"

subsection \<open>The minimal variant\<close>

text \<open>
  The minimal variant has no repository: its handler owns \<^verbatim>\<open>todos map[int]*Todo\<close> and
  \<^verbatim>\<open>nextID int\<close> and every handler method runs under the handler's mutex. Its \<^verbatim>\<open>Todo\<close>
  has no \<^verbatim>\<open>UpdatedAt\<close>. The names of this variant carry the suffix \<open>_mux\<close> (after its
  router), since the two variants share their names. Go's \<^verbatim>\<open>int\<close> is a 64-bit word
  read as two's complement.

  The map holds pointers. \<^verbatim>\<open>CreateTodo\<close> stores the address of its own local \<^verbatim>\<open>todo\<close>,
  a fresh object at every call, under one key, so no two keys share an object and a write
  through the pointer found under a key is an update of the map at that key.

  \<^verbatim>\<open>NewTodoHandler\<close>, \<^verbatim>\<open>CreateTodo\<close> and \<^verbatim>\<open>UpdateTodo\<close> are lines 31 to 36, 53 to 71
  and 96 to 125 of \<^verbatim>\<open>src/main.go\<close>; a response is its status code and its body, the
  texts of the two fixed error messages being left out (\<open>Invalid_ID\<close>, \<open>Todo_not_found\<close>).
  What the libraries compute from the request is an argument of the modelled method:
  the outcome of \<^verbatim>\<open>strconv.Atoi\<close> on the path variable (\<open>None\<close> when it is not an
  integer) and the outcome of decoding the body (\<open>Inl\<close> the decoder's error text, or
  \<open>Inr\<close> the decoded record).
\<close>

record Todo_mux =
  ID_mux :: "64 word"
  Title_mux :: string
  Completed_mux :: bool
  CreatedAt_mux :: time

record TodoHandler_mux =
  todos_mux :: "64 word \<rightharpoonup> Todo_mux"
  nextID_mux :: "64 word"

datatype body_mux = Decode_error string | Invalid_ID | Todo_not_found | Encode_Todo Todo_mux

type_synonym response_mux = "nat \<times> body_mux"

definition NewTodoHandler_mux :: TodoHandler_mux where
  "NewTodoHandler_mux = \<lparr>todos_mux = Map.empty, nextID_mux = 1\<rparr>"

definition CreateTodo_mux ::
    "string + Todo_mux \<Rightarrow> time \<Rightarrow> TodoHandler_mux \<Rightarrow> response_mux \<times> TodoHandler_mux" where
  "CreateTodo_mux decoded now h =
     (case decoded of
        Inl err \<Rightarrow> ((400, Decode_error err), h)
      | Inr todo \<Rightarrow>
          (let todo = todo\<lparr>ID_mux := nextID_mux h\<rparr>;
               todo = todo\<lparr>CreatedAt_mux := now\<rparr>;
               h = h\<lparr>todos_mux := (todos_mux h)(ID_mux todo \<mapsto> todo)\<rparr>;
               h = h\<lparr>nextID_mux := nextID_mux h + 1\<rparr>
           in ((201, Encode_Todo todo), h)))"

definition UpdateTodo_mux ::
    "64 word option \<Rightarrow> string + Todo_mux \<Rightarrow> TodoHandler_mux \<Rightarrow> response_mux \<times> TodoHandler_mux" where
  "UpdateTodo_mux atoi decoded h =
     (case atoi of
        None \<Rightarrow> ((400, Invalid_ID), h)
      | Some i \<Rightarrow>
          (case todos_mux h i of
             None \<Rightarrow> ((404, Todo_not_found), h)
           | Some todo \<Rightarrow>
               (case decoded of
                  Inl err \<Rightarrow> ((400, Decode_error err), h)
                | Inr updatedTodo \<Rightarrow>
                    (let todo = todo\<lparr>Title_mux := Title_mux updatedTodo\<rparr>;
                         todo = todo\<lparr>Completed_mux := Completed_mux updatedTodo\<rparr>;
                         h = h\<lparr>todos_mux := (todos_mux h)(i \<mapsto> todo)\<rparr>
                     in ((200, Encode_Todo todo), h)))))"

subsection \<open>Inputs of the spec's scenario\<close>

definition todo_a :: Todo where
  "todo_a = \<lparr>ID = 0, Title = ''a'', Completed = False, CreatedAt = 0, UpdatedAt = 0\<rparr>"

definition todo_b :: Todo where
  "todo_b = \<lparr>ID = 0, Title = ''b'', Completed = False, CreatedAt = 0, UpdatedAt = 0\<rparr>"

definition todo_c :: Todo where
  "todo_c = \<lparr>ID = 0, Title = ''c'', Completed = False, CreatedAt = 0, UpdatedAt = 0\<rparr>"

definition patch_done :: Todo where
  "patch_done = \<lparr>ID = 0, Title = [], Completed = True, CreatedAt = 0, UpdatedAt = 0\<rparr>"

text \<open>The input of the spec's round trip, with an id and timestamps of the caller's.\<close>

definition todo_milk :: Todo where
  "todo_milk = \<lparr>ID = 99, Title = ''buy milk'', Completed = False, CreatedAt = 5, UpdatedAt = 7\<rparr>"

definition todo_a_mux :: Todo_mux where
  "todo_a_mux = \<lparr>ID_mux = 0, Title_mux = ''a'', Completed_mux = False, CreatedAt_mux = 0\<rparr>"

definition patch_done_mux :: Todo_mux where
  "patch_done_mux = \<lparr>ID_mux = 0, Title_mux = [], Completed_mux = True, CreatedAt_mux = 0\<rparr>"

definition two_todos :: "call list" where
  "two_todos = [CallCreate 10 todo_a, CallCreate 20 todo_b]"

definition scenario :: "call list" where
  "scenario = [CallCreate 10 todo_a, CallCreate 20 todo_b, CallDelete 1, CallCreate 30 todo_c]"

definition two_updates :: "call list" where
  "two_updates = [CallUpdate 20 1 patch_done, CallUpdate 30 1 todo_b]"

section \<open>Basic facts\<close>

lemmas exec_simps =
  final_def replies_def NewTodoRepository_def Create_def Update_def Delete_def FindByID_def
  Let_def Todo_zero_def

lemmas scenario_simps =
  scenario_def two_todos_def two_updates_def todo_a_def todo_b_def todo_c_def patch_done_def

lemma fst_run_Cons: "fst (run (c # cs) r) = fst (step c r) # fst (run cs (snd (step c r)))"
  by (simp split: prod.splits)

lemma snd_run_Cons: "snd (run (c # cs) r) = snd (run cs (snd (step c r)))"
  by (simp split: prod.splits)

lemma fst_step:
  "fst (step (CallCreate now t) r) = Created (fst (Create now t r))"
  "fst (step (CallFindByID i) r) = Found (fst (fst (FindByID i r))) (snd (fst (FindByID i r)))"
  "fst (step (CallUpdate now i t) r) =
     Updated (fst (fst (Update now i t r))) (snd (fst (Update now i t r)))"
  "fst (step (CallDelete i) r) = Deleted (fst (Delete i r))"
  by (simp_all split: prod.splits)

lemma snd_step:
  "snd (step (CallCreate now t) r) = snd (Create now t r)"
  "snd (step (CallFindByID i) r) = snd (FindByID i r)"
  "snd (step (CallUpdate now i t) r) = snd (Update now i t r)"
  "snd (step (CallDelete i) r) = snd (Delete i r)"
  by (simp_all split: prod.splits)

lemma ID_Create: "ID (fst (Create now t r)) = nextID r"
  by (simp add: Create_def Let_def)

subsection \<open>The counter counts the creations\<close>

lemma nextID_step:
  "nextID (snd (step c r)) = (if is_Create c then nextID r + 1 else nextID r)"
  by (cases c)
     (simp_all add: snd_step Create_def FindByID_def Update_def Delete_def Let_def
        split: option.splits del: step.simps)

lemma nextID_run: "nextID (snd (run cs r)) = nextID r + of_nat (creates cs)"
proof (induction cs arbitrary: r)
  case Nil
  show ?case by (simp add: creates_def)
next
  case (Cons c cs)
  show ?case
    using Cons.IH [of "snd (step c r)"]
    by (simp add: snd_run_Cons nextID_step creates_def del: run.simps)
qed

lemma nextID_final: "nextID (final cs) = of_nat (Suc (creates cs))"
  by (simp add: final_def nextID_run NewTodoRepository_def)

lemma creates_replicate: "creates (replicate n (CallCreate now t)) = n"
  by (simp add: creates_def)

subsection \<open>The ids handed out\<close>

lemma created_ids_step:
  "created_ids (fst (step c r) # xs) =
     (if is_Create c then nextID r # created_ids xs else created_ids xs)"
  by (cases c) (simp_all add: fst_step ID_Create del: step.simps)

lemma created_ids_run:
  "created_ids (fst (run cs r)) = map (\<lambda>k. nextID r + of_nat k) [0..<creates cs]"
proof (induction cs arbitrary: r)
  case Nil
  show ?case by (simp add: creates_def)
next
  case (Cons c cs)
  show ?case
  proof (cases "is_Create c")
    case True
    have "created_ids (fst (run (c # cs) r)) =
        nextID r # created_ids (fst (run cs (snd (step c r))))"
      by (simp only: fst_run_Cons created_ids_step True if_True)
    also have "\<dots> = nextID r # map (\<lambda>k. nextID r + of_nat (Suc k)) [0..<creates cs]"
      by (simp add: Cons.IH nextID_step True add.assoc add.commute del: step.simps)
    also have "\<dots> = map (\<lambda>k. nextID r + of_nat k) (0 # map Suc [0..<creates cs])"
      by (simp add: comp_def)
    also have "0 # map Suc [0..<creates cs] = [0..<Suc (creates cs)]"
      by (simp add: map_Suc_upt upt_conv_Cons del: upt_Suc)
    also have "Suc (creates cs) = creates (c # cs)"
      by (simp add: True creates_def)
    finally show ?thesis .
  next
    case False
    have "created_ids (fst (run (c # cs) r)) = created_ids (fst (run cs (snd (step c r))))"
      by (simp only: fst_run_Cons created_ids_step False if_False)
    then show ?thesis
      by (simp add: Cons.IH nextID_step False creates_def del: step.simps)
  qed
qed

lemma created_ids_replies: "created_ids (replies cs) = map of_nat [1..<Suc (creates cs)]"
proof -
  have "created_ids (replies cs) = map (\<lambda>k. of_nat (Suc k)) [0..<creates cs]"
    by (simp add: replies_def created_ids_run NewTodoRepository_def)
  also have "\<dots> = map of_nat (map Suc [0..<creates cs])"
    by (simp add: comp_def)
  finally show ?thesis by (simp only: map_Suc_upt One_nat_def)
qed

lemma sorted_ids:
  assumes "n < 2 ^ 64"
  shows "sorted_wrt (<) (map (of_nat :: nat \<Rightarrow> uint) [1..<Suc n])"
proof -
  have less: "(of_nat i :: uint) < of_nat j"
    if "i \<in> set [1..<Suc n]" "j \<in> set [1..<Suc n]" "i < j" for i j
  proof -
    from that assms have "i < 2 ^ 64" "j < 2 ^ 64" by auto
    then have "unat (of_nat i :: uint) = i" "unat (of_nat j :: uint) = j"
      by (simp_all add: unat_of_nat)
    with \<open>i < j\<close> show ?thesis
      by (simp add: word_less_nat_alt)
  qed
  have "sorted_wrt (\<lambda>i j. (of_nat i :: uint) < of_nat j) [1..<Suc n]"
    by (rule sorted_wrt_mono_rel [where P = "(<)"]) (use less in blast, rule sorted_wrt_upt)
  then show ?thesis
    by (simp only: sorted_wrt_map)
qed

lemma distinct_ids:
  assumes "n < 2 ^ 64"
  shows "distinct (map (of_nat :: nat \<Rightarrow> uint) [1..<Suc n])"
  using sorted_ids [OF assms] by (simp only: strict_sorted_iff)

lemma hd_last_ids:
  assumes "0 < n"
  shows "hd (map f [1..<Suc n]) = f 1" and "last (map f [1..<Suc n]) = f n"
proof -
  from assms have "[1..<Suc n] \<noteq> []" "hd [1..<Suc n] = 1" "last [1..<Suc n] = n"
    by (simp_all del: upt_Suc)
  then show "hd (map f [1..<Suc n]) = f 1" and "last (map f [1..<Suc n]) = f n"
    by (simp_all add: hd_map last_map del: upt_Suc)
qed

lemma ids_repeat:
  "\<not> distinct (map (of_nat :: nat \<Rightarrow> uint) [1..<Suc (2 ^ 64 + 1)])"
proof
  assume "distinct (map (of_nat :: nat \<Rightarrow> uint) [1..<Suc (2 ^ 64 + 1)])"
  then have inj: "inj_on (of_nat :: nat \<Rightarrow> uint) (set [1..<Suc (2 ^ 64 + 1)])"
    by (simp only: distinct_map)
  have first: "(1::nat) \<in> set [1..<Suc (2 ^ 64 + 1)]"
    and again: "(2 ^ 64 + 1 :: nat) \<in> set [1..<Suc (2 ^ 64 + 1)]"
    by (simp_all del: upt_Suc)
  have same: "(of_nat 1 :: uint) = of_nat (2 ^ 64 + 1)" by simp
  from inj_onD [OF inj same first again] show False by simp
qed

subsection \<open>The keys of the store\<close>

lemma dom_step:
  "dom (todos (snd (step c r))) \<subseteq> dom (todos r) \<union> (if is_Create c then {nextID r} else {})"
  by (cases c)
     (auto simp: snd_step Create_def FindByID_def Update_def Delete_def Let_def
        split: option.splits if_splits simp del: step.simps)

lemma dom_run:
  "dom (todos (snd (run cs r))) \<subseteq> dom (todos r) \<union> (\<lambda>k. nextID r + of_nat k) ` {..<creates cs}"
proof (induction cs arbitrary: r)
  case Nil
  show ?case by simp
next
  case (Cons c cs)
  let ?r = "snd (step c r)"
  have IH: "dom (todos (snd (run (c # cs) r))) \<subseteq>
      dom (todos ?r) \<union> (\<lambda>k. nextID ?r + of_nat k) ` {..<creates cs}"
    by (simp only: snd_run_Cons Cons.IH)
  show ?case
  proof (cases "is_Create c")
    case True
    have new: "(\<lambda>k. nextID ?r + of_nat k) ` {..<creates cs} =
        (\<lambda>k. nextID r + of_nat k) ` Suc ` {..<creates cs}"
      by (simp add: nextID_step True image_image ac_simps del: step.simps)
    have all: "{..<creates (c # cs)} = insert 0 (Suc ` {..<creates cs})"
      by (simp add: True creates_def lessThan_Suc_eq_insert_0)
    have "dom (todos ?r) \<subseteq> insert (nextID r) (dom (todos r))"
      using dom_step [of c r] True by simp
    with IH show ?thesis
      unfolding new all by auto
  next
    case False
    then show ?thesis
      using IH dom_step [of c r] by (auto simp: nextID_step creates_def simp del: step.simps)
  qed
qed

lemma dom_final: "dom (todos (final cs)) \<subseteq> of_nat ` {1..creates cs}"
proof -
  have "(\<lambda>k. (1::uint) + of_nat k) ` {..<creates cs} = of_nat ` Suc ` {..<creates cs}"
    by (simp add: image_image)
  also have "Suc ` {..<creates cs} = {1..creates cs}"
    by (simp add: image_Suc_lessThan)
  finally show ?thesis
    using dom_run [of cs NewTodoRepository] by (simp add: final_def NewTodoRepository_def)
qed

lemma keys_step:
  assumes "\<forall>k t. todos r k = Some t \<longrightarrow> ID t = k"
  shows "\<forall>k t. todos (snd (step c r)) k = Some t \<longrightarrow> ID t = k"
  using assms
  by (cases c)
     (auto simp: snd_step Create_def FindByID_def Update_def Delete_def Let_def
        split: option.splits if_splits simp del: step.simps)

lemma keys_run:
  assumes "\<forall>k t. todos r k = Some t \<longrightarrow> ID t = k"
  shows "\<forall>k t. todos (snd (run cs r)) k = Some t \<longrightarrow> ID t = k"
  using assms
proof (induction cs arbitrary: r)
  case Nil
  then show ?case by simp
next
  case (Cons c cs)
  from Cons.IH [OF keys_step [OF Cons.prems]] show ?case
    by (simp only: snd_run_Cons)
qed

lemma keys_final: "todos (final cs) k = Some t \<Longrightarrow> ID t = k"
  using keys_run [of NewTodoRepository cs] by (simp add: final_def NewTodoRepository_def)

lemma stored_bounds:
  assumes "creates cs < 2 ^ 64 - 1" and "todos (final cs) k = Some t"
  shows "1 \<le> k" and "k < nextID (final cs)"
proof -
  from assms(2) dom_final [of cs] obtain j where j: "k = of_nat j" "1 \<le> j" "j \<le> creates cs"
    by auto
  with assms(1) have "j < 2 ^ 64" "Suc (creates cs) < 2 ^ 64" by simp_all
  then have u: "unat k = j" "unat (nextID (final cs)) = Suc (creates cs)"
    by (simp_all add: j nextID_final unat_of_nat del: of_nat_Suc)
  with j show "1 \<le> k" and "k < nextID (final cs)"
    by (simp_all add: word_le_nat_alt word_less_nat_alt)
qed

lemma nextID_pos:
  assumes "creates cs < 2 ^ 64 - 1"
  shows "1 \<le> nextID (final cs)"
proof -
  from assms have "Suc (creates cs) < 2 ^ 64" by simp
  then have "unat (nextID (final cs)) = Suc (creates cs)"
    by (simp add: nextID_final unat_of_nat del: of_nat_Suc)
  then show ?thesis by (simp add: word_le_nat_alt)
qed

lemma no_Create_absent:
  assumes "todos r i = None" and "\<not> list_ex is_Create cs"
  shows "todos (snd (run cs r)) i = None"
  using assms
proof (induction cs arbitrary: r)
  case Nil
  then show ?case by simp
next
  case (Cons c cs)
  from Cons.prems have "todos (snd (step c r)) i = None"
    by (cases c) (auto simp: snd_step FindByID_def Update_def Delete_def Let_def
        split: option.splits simp del: step.simps)
  with Cons.IH [of "snd (step c r)"] Cons.prems(2) show ?case
    by (simp add: snd_run_Cons del: run.simps)
qed

lemma step_absent_below:
  assumes "todos r i = None" and "i < nextID r"
    and "unat (nextID r) + (if is_Create c then 1 else 0) < 2 ^ 64"
  shows "todos (snd (step c r)) i = None \<and> i < nextID (snd (step c r))"
proof (cases c)
  case (CallCreate now t)
  from assms(3) have "unat (nextID r) + 1 < 2 ^ 64" by (simp add: CallCreate)
  then have "unat (nextID r + 1) = unat (nextID r) + 1"
    by (simp add: unat_word_ariths)
  with assms(2) have "i < nextID r + 1"
    by (simp add: word_less_nat_alt)
  with assms(1,2) show ?thesis
    by (auto simp: CallCreate snd_step Create_def Let_def simp del: step.simps)
next
  case (CallFindByID j)
  with assms show ?thesis
    by (simp add: snd_step FindByID_def split: option.splits del: step.simps)
next
  case (CallUpdate now j t)
  with assms show ?thesis
    by (auto simp: snd_step Update_def Let_def split: option.splits simp del: step.simps)
next
  case (CallDelete j)
  with assms show ?thesis
    by (auto simp: snd_step Delete_def split: option.splits simp del: step.simps)
qed

lemma run_absent_below:
  assumes "todos r i = None" and "i < nextID r" and "unat (nextID r) + creates cs < 2 ^ 64"
  shows "todos (snd (run cs r)) i = None"
  using assms
proof (induction cs arbitrary: r)
  case Nil
  then show ?case by simp
next
  case (Cons c cs)
  have split: "creates (c # cs) = (if is_Create c then 1 else 0) + creates cs"
    by (simp add: creates_def)
  with Cons.prems(3) have one: "unat (nextID r) + (if is_Create c then 1 else 0) < 2 ^ 64"
    by simp
  note s = step_absent_below [OF Cons.prems(1,2) one]
  have "unat (nextID (snd (step c r))) = unat (nextID r) + (if is_Create c then 1 else 0)"
    using one by (auto simp: nextID_step unat_word_ariths simp del: step.simps)
  with Cons.prems(3) split have "unat (nextID (snd (step c r))) + creates cs < 2 ^ 64"
    by simp
  from Cons.IH [OF conjunct1 [OF s] conjunct2 [OF s] this] show ?case
    by (simp only: snd_run_Cons)
qed

lemma absent_unless_created:
  assumes "todos r i = None" and "i \<notin> set (created_ids (fst (run cs r)))"
  shows "todos (snd (run cs r)) i = None"
proof -
  have "set (created_ids (fst (run cs r))) = (\<lambda>k. nextID r + of_nat k) ` {..<creates cs}"
    by (simp only: created_ids_run set_map set_upt atLeast0LessThan)
  with assms dom_run [of cs r] have "i \<notin> dom (todos (snd (run cs r)))"
    by (auto simp: domIff)
  then show ?thesis by (simp add: domIff)
qed

subsection \<open>One more creation\<close>

lemma snd_run_append: "snd (run (cs @ ds) r) = snd (run ds (snd (run cs r)))"
proof (induction cs arbitrary: r)
  case Nil
  show ?case by simp
next
  case (Cons c cs)
  show ?case
    by (simp only: append_Cons snd_run_Cons Cons.IH)
qed

lemma final_replicate_Suc:
  "final (replicate (Suc n) c) = snd (step c (final (replicate n c)))"
proof -
  have one: "snd (run [c] r) = snd (step c r)" for r
    by (simp split: prod.splits)
  have "replicate (Suc n) c = replicate n c @ [c]"
    by (simp add: replicate_append_same)
  then show ?thesis
    by (simp only: final_def snd_run_append one)
qed

lemma FindByID_Create:
  "fst (FindByID (nextID r) (snd (Create now t r))) =
     (t\<lparr>ID := nextID r, CreatedAt := now, UpdatedAt := now\<rparr>, None)"
  by (simp add: FindByID_def Create_def Let_def)

lemma snd_run_replicate_Suc:
  "snd (run (replicate (Suc n) c) r) = snd (step c (snd (run (replicate n c) r)))"
proof -
  have one: "snd (run [c] r') = snd (step c r')" for r'
    by (simp split: prod.splits)
  have "replicate (Suc n) c = replicate n c @ [c]"
    by (simp add: replicate_append_same)
  then show ?thesis
    by (simp only: snd_run_append one)
qed

subsection \<open>What updates keep\<close>

lemma Update_keeps:
  assumes "todos r i = Some e0"
  shows "\<exists>e. todos (snd (Update now j u r)) i = Some e \<and> ID e = ID e0 \<and> CreatedAt e = CreatedAt e0"
  using assms by (auto simp: Update_def Let_def split: option.splits)

lemma Update_returns:
  assumes "todos r i = Some e0"
  shows "snd (fst (Update now i u r)) = None \<and> ID (fst (fst (Update now i u r))) = ID e0
     \<and> CreatedAt (fst (fst (Update now i u r))) = CreatedAt e0"
  using assms by (simp add: Update_def Let_def)

lemma Updates_keep:
  assumes "todos r i = Some e0" and "list_all is_Update us"
  shows "(\<exists>e. todos (snd (run us r)) i = Some e \<and> ID e = ID e0 \<and> CreatedAt e = CreatedAt e0) \<and>
    (\<forall>n u e err. (CallUpdate n i u, Updated e err) \<in> set (zip us (fst (run us r))) \<longrightarrow>
        err = None \<and> ID e = ID e0 \<and> CreatedAt e = CreatedAt e0)"
  using assms
proof (induction us arbitrary: r e0)
  case Nil
  then show ?case by simp
next
  case (Cons c us)
  from Cons.prems(2) obtain n j u where c: "c = CallUpdate n j u"
    by (cases c) simp_all
  from Update_keeps [OF Cons.prems(1), of n j u] obtain e1
    where e1: "todos (snd (Update n j u r)) i = Some e1" "ID e1 = ID e0" "CreatedAt e1 = CreatedAt e0"
    by blast
  from Cons.prems(2) have us: "list_all is_Update us" by simp
  note IH = Cons.IH [OF e1(1) us]
  have first: "err = None \<and> ID e = ID e0 \<and> CreatedAt e = CreatedAt e0"
    if "(CallUpdate n' i u', Updated e err) = (c, fst (step c r))" for n' u' e err
  proof -
    from that have "j = i" and "Updated e err = fst (step (CallUpdate n i u) r)"
      by (simp_all add: c del: step.simps)
    then have "e = fst (fst (Update n i u r))" "err = snd (fst (Update n i u r))"
      by (simp_all add: fst_step del: step.simps)
    with Update_returns [OF Cons.prems(1), of n u] show ?thesis by simp
  qed
  have rest: "err = None \<and> ID e = ID e0 \<and> CreatedAt e = CreatedAt e0"
    if "(CallUpdate n' i u', Updated e err) \<in> set (zip us (fst (run us (snd (step c r)))))"
    for n' u' e err
    using that IH e1(2,3) by (simp only: c snd_step)
  have "\<exists>e. todos (snd (run (c # us) r)) i = Some e \<and> ID e = ID e0 \<and> CreatedAt e = CreatedAt e0"
    using IH e1(2,3) by (simp only: snd_run_Cons c snd_step)
  moreover have "\<forall>n' u' e err.
      (CallUpdate n' i u', Updated e err) \<in> set (zip (c # us) (fst (run (c # us) r))) \<longrightarrow>
      err = None \<and> ID e = ID e0 \<and> CreatedAt e = CreatedAt e0"
    using first rest by (simp only: fst_run_Cons zip_Cons_Cons set_simps insert_iff) blast
  ultimately show ?case by blast
qed

section \<open>The claims\<close>

subsection \<open>C1: ids are unique and increase\<close>

text \<open>
  Claim C1, as amended. From a fresh repository and for any sequence of calls, the
  \<open>k\<close>-th \<^verbatim>\<open>Create\<close> is given the id \<open>k\<close> as a \<^verbatim>\<open>uint\<close> (so the ids start at 1 and
  deleting a record does not give its id back to the counter), and no two stored records
  have the same id. As long as the sequence holds fewer than \<open>2\<^sup>6\<^sup>4\<close> creations, every id
  handed out is strictly greater than all ids handed out before it, and no id is handed
  out twice.
\<close>

theorem ids_increasing:
  "created_ids (replies cs) = map of_nat [1..<Suc (creates cs)]
   \<and> (\<forall>k1 k2 t1 t2. todos (final cs) k1 = Some t1 \<and> todos (final cs) k2 = Some t2 \<and> k1 \<noteq> k2
         \<longrightarrow> ID t1 \<noteq> ID t2)
   \<and> (creates cs < 2 ^ 64 \<longrightarrow>
        sorted_wrt (<) (created_ids (replies cs)) \<and> distinct (created_ids (replies cs)))"
proof -
  have unique: "\<forall>k1 k2 t1 t2.
      todos (final cs) k1 = Some t1 \<and> todos (final cs) k2 = Some t2 \<and> k1 \<noteq> k2 \<longrightarrow> ID t1 \<noteq> ID t2"
    using keys_final [of cs] by metis
  have ids: "created_ids (replies cs) = map of_nat [1..<Suc (creates cs)]"
    by (rule created_ids_replies)
  have "sorted_wrt (<) (created_ids (replies cs)) \<and> distinct (created_ids (replies cs))"
    if "creates cs < 2 ^ 64"
    using sorted_ids [OF that] distinct_ids [OF that] by (simp only: ids)
  with unique ids show ?thesis by blast
qed

text \<open>
  The scenario of the spec: two records are created, the first is deleted, and the third
  creation is given the id 3, not the freed id 1; the two records left have the ids 2
  and 3.
\<close>

theorem ids_increasing_witness:
  "creates scenario < 2 ^ 64
   \<and> created_ids (replies scenario) = [1, 2, 3]
   \<and> sorted_wrt (<) (created_ids (replies scenario))
   \<and> distinct (created_ids (replies scenario))
   \<and> todos (final scenario) 1 = None
   \<and> todos (final scenario) 2
       = Some \<lparr>ID = 2, Title = ''b'', Completed = False, CreatedAt = 20, UpdatedAt = 20\<rparr>
   \<and> todos (final scenario) 3
       = Some \<lparr>ID = 3, Title = ''c'', Completed = False, CreatedAt = 30, UpdatedAt = 30\<rparr>
   \<and> ID \<lparr>ID = 2, Title = ''b'', Completed = False, CreatedAt = 20, UpdatedAt = 20\<rparr>
       \<noteq> ID \<lparr>ID = 3, Title = ''c'', Completed = False, CreatedAt = 30, UpdatedAt = 30\<rparr>"
proof -
  have c: "creates scenario < 2 ^ 64"
    by (simp add: creates_def scenario_def)
  have ids: "created_ids (replies scenario) = [1, 2, 3]"
    by (simp add: exec_simps scenario_simps)
  have gone: "todos (final scenario) 1 = None"
    by (simp add: exec_simps scenario_simps)
  have b: "todos (final scenario) 2
       = Some \<lparr>ID = 2, Title = ''b'', Completed = False, CreatedAt = 20, UpdatedAt = 20\<rparr>"
    by (simp add: exec_simps scenario_simps)
  have t: "todos (final scenario) 3
       = Some \<lparr>ID = 3, Title = ''c'', Completed = False, CreatedAt = 30, UpdatedAt = 30\<rparr>"
    by (simp add: exec_simps scenario_simps)
  have k: "(2 :: uint) \<noteq> 3" by simp
  note I = ids_increasing [of scenario]
  from I c have s: "sorted_wrt (<) (created_ids (replies scenario))"
    and d: "distinct (created_ids (replies scenario))"
    by blast+
  from I b t k
  have u: "ID \<lparr>ID = 2, Title = ''b'', Completed = False, CreatedAt = 20, UpdatedAt = 20\<rparr>
       \<noteq> ID \<lparr>ID = 3, Title = ''c'', Completed = False, CreatedAt = 30, UpdatedAt = 30\<rparr>"
    by blast
  from c ids s d gone b t u show ?thesis by (intro conjI)
qed

text \<open>
  The claim as it is written, for any sequence of calls, fails where the counter wraps:
  of \<open>2\<^sup>6\<^sup>4\<close> creations in a row the first is given the id 1 and the last the id 0,
  and one creation more is given the id 1 again.
\<close>

theorem ids_wrap_counterexample:
  "hd (created_ids (replies (replicate (2 ^ 64) (CallCreate 0 todo_a)))) = 1 \<and>
   last (created_ids (replies (replicate (2 ^ 64) (CallCreate 0 todo_a)))) = 0 \<and>
   \<not> distinct (created_ids (replies (replicate (2 ^ 64 + 1) (CallCreate 0 todo_a))))"
proof -
  have pos: "(0::nat) < 2 ^ 64" by simp
  have "(of_nat (2 ^ 64) :: uint) = 0" "(of_nat 1 :: uint) = 1" by simp_all
  then have "hd (created_ids (replies (replicate (2 ^ 64) (CallCreate 0 todo_a)))) = 1"
    and "last (created_ids (replies (replicate (2 ^ 64) (CallCreate 0 todo_a)))) = 0"
    by (simp_all only: created_ids_replies creates_replicate hd_last_ids [OF pos])
  moreover have "\<not> distinct (created_ids (replies (replicate (2 ^ 64 + 1) (CallCreate 0 todo_a))))"
    unfolding created_ids_replies creates_replicate by (rule ids_repeat)
  ultimately show ?thesis by (intro conjI)
qed

subsection \<open>C2: what Create does\<close>

text \<open>
  Claim C2. For every input record, \<^verbatim>\<open>Create\<close> gives the record the id held by the
  counter, sets \<^verbatim>\<open>CreatedAt\<close> and \<^verbatim>\<open>UpdatedAt\<close> to the time it read, stores the record
  under that id, advances the counter by one, and returns the record as it is stored; the
  title and the completed flag are the caller's. The id and the timestamps of the input
  have no influence on the result.
\<close>

theorem Create_assigns_next_id:
  "Create now todo r =
     (todo\<lparr>ID := nextID r, CreatedAt := now, UpdatedAt := now\<rparr>,
      r\<lparr>todos := (todos r)(nextID r \<mapsto> todo\<lparr>ID := nextID r, CreatedAt := now, UpdatedAt := now\<rparr>),
        nextID := nextID r + 1\<rparr>)
   \<and> todos (snd (Create now todo r)) (ID (fst (Create now todo r))) = Some (fst (Create now todo r))
   \<and> Title (fst (Create now todo r)) = Title todo
   \<and> Completed (fst (Create now todo r)) = Completed todo
   \<and> Create now (todo\<lparr>ID := i, CreatedAt := c, UpdatedAt := u\<rparr>) r = Create now todo r"
  by (simp add: Create_def Let_def)

text \<open>
  A record that arrives with the id 99 and timestamps 5 and 7 is stored in a fresh
  repository under the id 1 with both timestamps 10, the time of the call.
\<close>

theorem Create_assigns_next_id_witness:
  "Create 10 todo_milk NewTodoRepository =
     (\<lparr>ID = 1, Title = ''buy milk'', Completed = False, CreatedAt = 10, UpdatedAt = 10\<rparr>,
      \<lparr>todos = [1 \<mapsto> \<lparr>ID = 1, Title = ''buy milk'', Completed = False, CreatedAt = 10, UpdatedAt = 10\<rparr>],
       nextID = 2\<rparr>)"
  using Create_assigns_next_id [of 10 todo_milk NewTodoRepository]
  by (simp add: todo_milk_def NewTodoRepository_def)

subsection \<open>C3: what Update does to a stored record\<close>

text \<open>
  Claim C3. When a record is stored under the id, \<^verbatim>\<open>Update\<close> replaces its title by the
  supplied title if that is not empty and keeps the stored title otherwise, overwrites its
  completed flag with the supplied one whatever its value, sets \<^verbatim>\<open>UpdatedAt\<close> to the time
  it read, changes no other field, stores the record back under the id, and returns it
  with no error.
\<close>

theorem Update_present:
  assumes "todos r i = Some existing"
  shows "Update now i todo r =
     ((existing\<lparr>Title := (if Title todo \<noteq> [] then Title todo else Title existing),
                 Completed := Completed todo, UpdatedAt := now\<rparr>, None),
      r\<lparr>todos := (todos r)(i \<mapsto>
            existing\<lparr>Title := (if Title todo \<noteq> [] then Title todo else Title existing),
                 Completed := Completed todo, UpdatedAt := now\<rparr>)\<rparr>)"
  using assms by (simp add: Update_def Let_def)

text \<open>
  The scenario of the spec: updating record 2 (title \<open>b\<close>) with an empty title and
  \<open>completed = true\<close> keeps the title and sets the flag.
\<close>

theorem Update_present_witness:
  "todos (final two_todos) 2
     = Some \<lparr>ID = 2, Title = ''b'', Completed = False, CreatedAt = 20, UpdatedAt = 20\<rparr>
   \<and> fst (Update 30 2 patch_done (final two_todos))
     = (\<lparr>ID = 2, Title = ''b'', Completed = True, CreatedAt = 20, UpdatedAt = 30\<rparr>, None)"
proof -
  have h: "todos (final two_todos) 2
      = Some \<lparr>ID = 2, Title = ''b'', Completed = False, CreatedAt = 20, UpdatedAt = 20\<rparr>"
    by (simp add: exec_simps scenario_simps)
  show ?thesis
    using h Update_present [OF h, of 30 patch_done]
    by (simp add: patch_done_def)
qed

subsection \<open>C4: Create and the title\<close>

text \<open>
  Claim C4, as amended. \<^verbatim>\<open>Create\<close> has no error result and does not look at the title:
  for every input, with an empty title as with any other, it stores the record under the
  next id and returns it. The check of the title is not in the repository. The handler of
  the richer variant calls \<^verbatim>\<open>Create\<close> only with a record the request binding accepted
  and answers 400 with the repository unchanged when the binding failed; the handler of
  the minimal variant stores whatever record the body decoded to.
\<close>

theorem Create_never_rejects:
  "snd (Create now todo r) =
      r\<lparr>todos := (todos r)(nextID r \<mapsto> fst (Create now todo r)), nextID := nextID r + 1\<rparr>
   \<and> fst (Create now (todo\<lparr>Title := []\<rparr>) r) =
        todo\<lparr>ID := nextID r, Title := [], CreatedAt := now, UpdatedAt := now\<rparr>
   \<and> todos (snd (Create now (todo\<lparr>Title := []\<rparr>) r)) (nextID r) =
        Some (todo\<lparr>ID := nextID r, Title := [], CreatedAt := now, UpdatedAt := now\<rparr>)
   \<and> CreateTodo (Inl err) now r = ((400, H_error err), r)
   \<and> CreateTodo (Inr todo) now r =
        ((201, JSON_Todo (fst (Create now todo r))), snd (Create now todo r))
   \<and> CreateTodo_mux (Inl err) now h = ((400, Decode_error err), h)
   \<and> CreateTodo_mux (Inr t) now h =
        ((201, Encode_Todo (t\<lparr>ID_mux := nextID_mux h, CreatedAt_mux := now\<rparr>)),
         h\<lparr>todos_mux :=
             (todos_mux h)(nextID_mux h \<mapsto> t\<lparr>ID_mux := nextID_mux h, CreatedAt_mux := now\<rparr>),
           nextID_mux := nextID_mux h + 1\<rparr>)"
  by (simp add: Create_def CreateTodo_def CreateTodo_mux_def Let_def)

text \<open>
  The claim as it is written fails on a record with an empty title: \<^verbatim>\<open>Create\<close> on a
  fresh repository stores it under the id 1 and returns it.
\<close>

theorem Create_empty_title_counterexample:
  "Create 10 \<lparr>ID = 0, Title = [], Completed = False, CreatedAt = 0, UpdatedAt = 0\<rparr>
       NewTodoRepository =
     (\<lparr>ID = 1, Title = [], Completed = False, CreatedAt = 10, UpdatedAt = 10\<rparr>,
      \<lparr>todos = [1 \<mapsto> \<lparr>ID = 1, Title = [], Completed = False, CreatedAt = 10, UpdatedAt = 10\<rparr>],
       nextID = 2\<rparr>)"
  by (simp add: Create_def NewTodoRepository_def Let_def)

subsection \<open>C5: an absent id\<close>

text \<open>
  Claim C5. When no record is stored under the id (it was never handed out, or its record
  was deleted), \<^verbatim>\<open>FindByID\<close>, \<^verbatim>\<open>Update\<close> and \<^verbatim>\<open>Delete\<close> each return the error
  \<open>todo not found\<close>, the first two beside the zero \<^verbatim>\<open>Todo\<close>, and leave the whole state,
  records and counter, as it was.
\<close>

theorem absent_id_NotFound:
  assumes "todos r i = None"
  shows "FindByID i r = ((Todo_zero, Some NotFound), r)
    \<and> Update now i todo r = ((Todo_zero, Some NotFound), r)
    \<and> Delete i r = (Some NotFound, r)"
  using assms by (simp add: FindByID_def Update_def Delete_def)

text \<open>After the scenario of the spec the id 1 is that of a deleted record.\<close>

theorem absent_id_NotFound_witness:
  "todos (final scenario) 1 = None
   \<and> FindByID 1 (final scenario) = ((Todo_zero, Some NotFound), final scenario)
   \<and> Update 40 1 patch_done (final scenario) = ((Todo_zero, Some NotFound), final scenario)
   \<and> Delete 1 (final scenario) = (Some NotFound, final scenario)"
proof -
  have h: "todos (final scenario) 1 = None"
    by (simp add: exec_simps scenario_simps)
  from h absent_id_NotFound [OF h, of 40 patch_done] show ?thesis
    by (rule conjI)
qed

subsection \<open>C6: Update keeps the id and the creation time\<close>

text \<open>
  Claim C6. An \<^verbatim>\<open>Update\<close> of a stored record returns and stores a record with the id and
  the \<^verbatim>\<open>CreatedAt\<close> of the record it found. Hence, after a \<^verbatim>\<open>Create\<close> in any state,
  through any sequence of \<^verbatim>\<open>Update\<close> calls (on any ids), the record stays stored under
  its id with the id and the \<^verbatim>\<open>CreatedAt\<close> that \<^verbatim>\<open>Create\<close> returned, and every
  \<^verbatim>\<open>Update\<close> of that id in the sequence succeeds and returns these two values. The
  handler of the minimal variant writes the title and the completed flag only, so it
  keeps both fields as well.
\<close>

theorem Update_frame:
  "(\<forall>e. todos r i = Some e \<longrightarrow>
      snd (fst (Update now i todo r)) = None \<and>
      ID (fst (fst (Update now i todo r))) = ID e \<and>
      CreatedAt (fst (fst (Update now i todo r))) = CreatedAt e \<and>
      todos (snd (Update now i todo r)) i = Some (fst (fst (Update now i todo r))))
   \<and> (list_all is_Update us \<longrightarrow>
       (\<exists>e. todos (snd (run us (snd (Create now0 todo0 r)))) (ID (fst (Create now0 todo0 r))) = Some e \<and>
            ID e = ID (fst (Create now0 todo0 r)) \<and>
            CreatedAt e = CreatedAt (fst (Create now0 todo0 r))) \<and>
       (\<forall>n u e err.
          (CallUpdate n (ID (fst (Create now0 todo0 r))) u, Updated e err)
             \<in> set (zip us (fst (run us (snd (Create now0 todo0 r))))) \<longrightarrow>
          err = None \<and> ID e = ID (fst (Create now0 todo0 r)) \<and>
          CreatedAt e = CreatedAt (fst (Create now0 todo0 r))))
   \<and> (\<forall>e p. todos_mux h j = Some e \<longrightarrow>
        UpdateTodo_mux (Some j) (Inr p) h =
          ((200, Encode_Todo (e\<lparr>Title_mux := Title_mux p, Completed_mux := Completed_mux p\<rparr>)),
           h\<lparr>todos_mux :=
               (todos_mux h)(j \<mapsto> e\<lparr>Title_mux := Title_mux p, Completed_mux := Completed_mux p\<rparr>)\<rparr>))"
proof -
  have stored: "todos (snd (Create now0 todo0 r)) (ID (fst (Create now0 todo0 r))) =
      Some (fst (Create now0 todo0 r))"
    by (simp add: Create_def Let_def)
  have one: "\<forall>e. todos r i = Some e \<longrightarrow>
      snd (fst (Update now i todo r)) = None \<and>
      ID (fst (fst (Update now i todo r))) = ID e \<and>
      CreatedAt (fst (fst (Update now i todo r))) = CreatedAt e \<and>
      todos (snd (Update now i todo r)) i = Some (fst (fst (Update now i todo r)))"
    by (simp add: Update_def Let_def)
  have mux: "\<forall>e p. todos_mux h j = Some e \<longrightarrow>
        UpdateTodo_mux (Some j) (Inr p) h =
          ((200, Encode_Todo (e\<lparr>Title_mux := Title_mux p, Completed_mux := Completed_mux p\<rparr>)),
           h\<lparr>todos_mux :=
               (todos_mux h)(j \<mapsto> e\<lparr>Title_mux := Title_mux p, Completed_mux := Completed_mux p\<rparr>)\<rparr>)"
    by (simp add: UpdateTodo_mux_def Let_def)
  from one Updates_keep [OF stored, of us] mux show ?thesis
    by blast
qed

text \<open>
  A record created at time 10 under the id 1 and updated twice, at 20 and at 30: both
  updates return the id 1 and the creation time 10, and so does the stored record. The
  same for one update of record 2 of the spec's scenario, and for one update through the
  handler of the minimal variant.
\<close>

theorem Update_frame_witness:
  "list_all is_Update two_updates
   \<and> fst (Create 10 todo_a NewTodoRepository)
       = \<lparr>ID = 1, Title = ''a'', Completed = False, CreatedAt = 10, UpdatedAt = 10\<rparr>
   \<and> fst (run two_updates (snd (Create 10 todo_a NewTodoRepository)))
       = [Updated \<lparr>ID = 1, Title = ''a'', Completed = True, CreatedAt = 10, UpdatedAt = 20\<rparr> None,
          Updated \<lparr>ID = 1, Title = ''b'', Completed = False, CreatedAt = 10, UpdatedAt = 30\<rparr> None]
   \<and> (\<exists>e. todos (snd (run two_updates (snd (Create 10 todo_a NewTodoRepository))))
            (ID (fst (Create 10 todo_a NewTodoRepository))) = Some e \<and>
          ID e = ID (fst (Create 10 todo_a NewTodoRepository)) \<and>
          CreatedAt e = CreatedAt (fst (Create 10 todo_a NewTodoRepository)))
   \<and> todos (final two_todos) 2
       = Some \<lparr>ID = 2, Title = ''b'', Completed = False, CreatedAt = 20, UpdatedAt = 20\<rparr>
   \<and> ID (fst (fst (Update 30 2 patch_done (final two_todos)))) = 2
   \<and> CreatedAt (fst (fst (Update 30 2 patch_done (final two_todos)))) = 20
   \<and> todos_mux (snd (CreateTodo_mux (Inr todo_a_mux) 10 NewTodoHandler_mux)) 1
       = Some \<lparr>ID_mux = 1, Title_mux = ''a'', Completed_mux = False, CreatedAt_mux = 10\<rparr>
   \<and> fst (UpdateTodo_mux (Some 1) (Inr patch_done_mux)
         (snd (CreateTodo_mux (Inr todo_a_mux) 10 NewTodoHandler_mux)))
       = (200, Encode_Todo \<lparr>ID_mux = 1, Title_mux = [], Completed_mux = True, CreatedAt_mux = 10\<rparr>)"
proof -
  have u: "list_all is_Update two_updates"
    by (simp add: two_updates_def)
  have c: "fst (Create 10 todo_a NewTodoRepository)
       = \<lparr>ID = 1, Title = ''a'', Completed = False, CreatedAt = 10, UpdatedAt = 10\<rparr>"
    by (simp add: exec_simps scenario_simps)
  have rs: "fst (run two_updates (snd (Create 10 todo_a NewTodoRepository)))
       = [Updated \<lparr>ID = 1, Title = ''a'', Completed = True, CreatedAt = 10, UpdatedAt = 20\<rparr> None,
          Updated \<lparr>ID = 1, Title = ''b'', Completed = False, CreatedAt = 10, UpdatedAt = 30\<rparr> None]"
    by (simp add: exec_simps scenario_simps)
  have b: "todos (final two_todos) 2
       = Some \<lparr>ID = 2, Title = ''b'', Completed = False, CreatedAt = 20, UpdatedAt = 20\<rparr>"
    by (simp add: exec_simps scenario_simps)
  have m: "todos_mux (snd (CreateTodo_mux (Inr todo_a_mux) 10 NewTodoHandler_mux)) 1
       = Some \<lparr>ID_mux = 1, Title_mux = ''a'', Completed_mux = False, CreatedAt_mux = 10\<rparr>"
    by (simp add: CreateTodo_mux_def NewTodoHandler_mux_def todo_a_mux_def Let_def)
  note F = Update_frame [of "final two_todos" 2 30 patch_done two_updates 10 todo_a
      "snd (CreateTodo_mux (Inr todo_a_mux) 10 NewTodoHandler_mux)" 1]
  note G = Update_frame [of NewTodoRepository 2 30 patch_done two_updates 10 todo_a
      "snd (CreateTodo_mux (Inr todo_a_mux) 10 NewTodoHandler_mux)" 1]
  from G u have kept: "\<exists>e. todos (snd (run two_updates (snd (Create 10 todo_a NewTodoRepository))))
            (ID (fst (Create 10 todo_a NewTodoRepository))) = Some e \<and>
          ID e = ID (fst (Create 10 todo_a NewTodoRepository)) \<and>
          CreatedAt e = CreatedAt (fst (Create 10 todo_a NewTodoRepository))"
    by blast
  from F b have "ID (fst (fst (Update 30 2 patch_done (final two_todos)))) =
        ID \<lparr>ID = 2, Title = ''b'', Completed = False, CreatedAt = 20, UpdatedAt = 20\<rparr>"
    and "CreatedAt (fst (fst (Update 30 2 patch_done (final two_todos)))) =
        CreatedAt \<lparr>ID = 2, Title = ''b'', Completed = False, CreatedAt = 20, UpdatedAt = 20\<rparr>"
    by blast+
  then have one: "ID (fst (fst (Update 30 2 patch_done (final two_todos)))) = 2"
    "CreatedAt (fst (fst (Update 30 2 patch_done (final two_todos)))) = 20"
    by simp_all
  from F m have "UpdateTodo_mux (Some 1) (Inr patch_done_mux)
         (snd (CreateTodo_mux (Inr todo_a_mux) 10 NewTodoHandler_mux)) =
      ((200, Encode_Todo (\<lparr>ID_mux = 1, Title_mux = ''a'', Completed_mux = False, CreatedAt_mux = 10\<rparr>
            \<lparr>Title_mux := Title_mux patch_done_mux, Completed_mux := Completed_mux patch_done_mux\<rparr>)),
       snd (CreateTodo_mux (Inr todo_a_mux) 10 NewTodoHandler_mux)
         \<lparr>todos_mux := (todos_mux (snd (CreateTodo_mux (Inr todo_a_mux) 10 NewTodoHandler_mux)))
            (1 \<mapsto> \<lparr>ID_mux = 1, Title_mux = ''a'', Completed_mux = False, CreatedAt_mux = 10\<rparr>
            \<lparr>Title_mux := Title_mux patch_done_mux, Completed_mux := Completed_mux patch_done_mux\<rparr>)\<rparr>)"
    by blast
  then have mux: "fst (UpdateTodo_mux (Some 1) (Inr patch_done_mux)
         (snd (CreateTodo_mux (Inr todo_a_mux) 10 NewTodoHandler_mux)))
       = (200, Encode_Todo \<lparr>ID_mux = 1, Title_mux = [], Completed_mux = True, CreatedAt_mux = 10\<rparr>)"
    by (simp add: patch_done_mux_def)
  from u c rs kept b one m mux show ?thesis by (intro conjI)
qed

subsection \<open>C7: Create, then FindByID\<close>

text \<open>
  Claim C7. In any state and for every input (of any title, a valid one in particular),
  \<^verbatim>\<open>FindByID\<close> of the id that \<^verbatim>\<open>Create\<close> returned, called on the state \<^verbatim>\<open>Create\<close> left,
  returns no error and a record equal to the one \<^verbatim>\<open>Create\<close> returned.
\<close>

theorem Create_FindByID_roundtrip:
  "FindByID (ID (fst (Create now todo r))) (snd (Create now todo r))
     = ((fst (Create now todo r), None), snd (Create now todo r))"
  by (simp add: Create_def FindByID_def Let_def)

text \<open>The round trip of the spec, on the title \<open>buy milk\<close>.\<close>

theorem Create_FindByID_roundtrip_witness:
  "fst (Create 10 todo_milk NewTodoRepository)
     = \<lparr>ID = 1, Title = ''buy milk'', Completed = False, CreatedAt = 10, UpdatedAt = 10\<rparr>
   \<and> fst (FindByID 1 (snd (Create 10 todo_milk NewTodoRepository)))
     = (\<lparr>ID = 1, Title = ''buy milk'', Completed = False, CreatedAt = 10, UpdatedAt = 10\<rparr>, None)"
proof -
  have c: "fst (Create 10 todo_milk NewTodoRepository)
     = \<lparr>ID = 1, Title = ''buy milk'', Completed = False, CreatedAt = 10, UpdatedAt = 10\<rparr>"
    by (simp add: Create_def Let_def todo_milk_def NewTodoRepository_def)
  from Create_FindByID_roundtrip [of 10 todo_milk NewTodoRepository]
  have "fst (FindByID 1 (snd (Create 10 todo_milk NewTodoRepository)))
     = (\<lparr>ID = 1, Title = ''buy milk'', Completed = False, CreatedAt = 10, UpdatedAt = 10\<rparr>, None)"
    by (simp add: c)
  with c show ?thesis by (rule conjI)
qed

subsection \<open>C8: Delete of a stored record\<close>

text \<open>
  Claim C8, as amended. When a record is stored under the id, \<^verbatim>\<open>Delete\<close> returns no
  error and removes that record: \<^verbatim>\<open>FindByID\<close> of the id then returns
  \<open>todo not found\<close>, and every other record and the counter are as before. The removal
  lasts until a later \<^verbatim>\<open>Create\<close> is given that very id: through any sequence of calls
  in which no \<^verbatim>\<open>Create\<close> is given the id nothing is stored under it. So it lasts through
  any calls other than \<^verbatim>\<open>Create\<close>, and, where the id is below the counter (as every
  stored id is below the wrap, see C10), through any calls at all as long as the counter
  plus the number of later creations stays below \<open>2\<^sup>6\<^sup>4\<close>.
\<close>

theorem Delete_present:
  assumes "todos r i = Some existing"
  shows "Delete i r = (None, r\<lparr>todos := (todos r)(i := None)\<rparr>)
    \<and> FindByID i (snd (Delete i r)) = ((Todo_zero, Some NotFound), snd (Delete i r))
    \<and> (\<forall>j. j \<noteq> i \<longrightarrow> todos (snd (Delete i r)) j = todos r j)
    \<and> nextID (snd (Delete i r)) = nextID r
    \<and> (\<forall>cs. i \<notin> set (created_ids (fst (run cs (snd (Delete i r))))) \<longrightarrow>
          todos (snd (run cs (snd (Delete i r)))) i = None)
    \<and> (\<forall>cs. \<not> list_ex is_Create cs \<longrightarrow> todos (snd (run cs (snd (Delete i r)))) i = None)
    \<and> (\<forall>cs. i < nextID r \<and> unat (nextID r) + creates cs < 2 ^ 64 \<longrightarrow>
          todos (snd (run cs (snd (Delete i r)))) i = None)"
proof -
  have d: "Delete i r = (None, r\<lparr>todos := (todos r)(i := None)\<rparr>)"
    using assms by (simp add: Delete_def)
  then have gone: "todos (snd (Delete i r)) i = None" by simp
  have same: "nextID (snd (Delete i r)) = nextID r"
    by (simp add: d)
  have find: "FindByID i (snd (Delete i r)) = ((Todo_zero, Some NotFound), snd (Delete i r))"
    using gone by (simp add: FindByID_def)
  have others: "\<forall>j. j \<noteq> i \<longrightarrow> todos (snd (Delete i r)) j = todos r j"
    by (simp add: d)
  have unless: "\<forall>cs. i \<notin> set (created_ids (fst (run cs (snd (Delete i r))))) \<longrightarrow>
      todos (snd (run cs (snd (Delete i r)))) i = None"
    using absent_unless_created [OF gone] by blast
  have quiet: "\<forall>cs. \<not> list_ex is_Create cs \<longrightarrow> todos (snd (run cs (snd (Delete i r)))) i = None"
    using no_Create_absent [OF gone] by blast
  have below: "\<forall>cs. i < nextID r \<and> unat (nextID r) + creates cs < 2 ^ 64 \<longrightarrow>
      todos (snd (run cs (snd (Delete i r)))) i = None"
    using run_absent_below [OF gone] unfolding same by blast
  from d find others same unless quiet below show ?thesis
    by (intro conjI)
qed

text \<open>
  The scenario of the spec: with the records 1 and 2 stored, deleting 1 leaves 2 and the
  counter alone, and record 1 is not found afterwards, also after an update of its id and
  after the creation of a third record, which is given the id 3.
\<close>

theorem Delete_present_witness:
  "todos (final two_todos) 1
     = Some \<lparr>ID = 1, Title = ''a'', Completed = False, CreatedAt = 10, UpdatedAt = 10\<rparr>
   \<and> fst (Delete 1 (final two_todos)) = None
   \<and> FindByID 1 (snd (Delete 1 (final two_todos)))
       = ((Todo_zero, Some NotFound), snd (Delete 1 (final two_todos)))
   \<and> todos (snd (Delete 1 (final two_todos))) 2 = todos (final two_todos) 2
   \<and> nextID (snd (Delete 1 (final two_todos))) = 3
   \<and> todos (snd (run [CallUpdate 40 1 patch_done] (snd (Delete 1 (final two_todos))))) 1 = None
   \<and> created_ids (fst (run [CallCreate 30 todo_c] (snd (Delete 1 (final two_todos))))) = [3]
   \<and> todos (snd (run [CallCreate 30 todo_c] (snd (Delete 1 (final two_todos))))) 1 = None"
proof -
  have h: "todos (final two_todos) 1
     = Some \<lparr>ID = 1, Title = ''a'', Completed = False, CreatedAt = 10, UpdatedAt = 10\<rparr>"
    by (simp add: exec_simps scenario_simps)
  have n: "nextID (final two_todos) = 3"
    by (simp add: exec_simps scenario_simps)
  have l: "\<not> list_ex is_Create [CallUpdate 40 1 patch_done]" and k: "(2 :: uint) \<noteq> 1"
    by simp_all
  have b: "(1 :: uint) < nextID (final two_todos) \<and>
      unat (nextID (final two_todos)) + creates [CallCreate 30 todo_c] < 2 ^ 64"
    by (simp add: n creates_def)
  have c: "created_ids (fst (run [CallCreate 30 todo_c] (snd (Delete 1 (final two_todos))))) = [3]"
    by (simp add: exec_simps scenario_simps)
  then have m: "1 \<notin> set (created_ids (fst (run [CallCreate 30 todo_c] (snd (Delete 1 (final two_todos))))))"
    by simp
  note D = Delete_present [OF h]
  from D have 1: "fst (Delete 1 (final two_todos)) = None" by simp
  from D have 2: "FindByID 1 (snd (Delete 1 (final two_todos)))
       = ((Todo_zero, Some NotFound), snd (Delete 1 (final two_todos)))" by blast
  from D k have 3: "todos (snd (Delete 1 (final two_todos))) 2 = todos (final two_todos) 2" by blast
  from D n have 4: "nextID (snd (Delete 1 (final two_todos))) = 3" by simp
  from D l have 5: "todos (snd (run [CallUpdate 40 1 patch_done] (snd (Delete 1 (final two_todos))))) 1 = None"
    by blast
  from D m have 6: "todos (snd (run [CallCreate 30 todo_c] (snd (Delete 1 (final two_todos))))) 1 = None"
    by blast
  from D b have "todos (snd (run [CallCreate 30 todo_c] (snd (Delete 1 (final two_todos))))) 1 = None"
    by blast
  with h 1 2 3 4 5 c 6 show ?thesis by (intro conjI)
qed

text \<open>
  The claim as it is written, a removal for good, fails where the counter wraps round to
  the id: record 1 is created and deleted, \<^verbatim>\<open>FindByID\<close> of 1 then fails, and after
  \<open>2\<^sup>6\<^sup>4\<close> further creations the last of them has been given the id 1, so that
  \<^verbatim>\<open>FindByID\<close> of 1 returns a record again.
\<close>

theorem Delete_wrap_counterexample:
  "todos (final [CallCreate 10 todo_a]) 1
     = Some \<lparr>ID = 1, Title = ''a'', Completed = False, CreatedAt = 10, UpdatedAt = 10\<rparr>
   \<and> fst (Delete 1 (final [CallCreate 10 todo_a])) = None
   \<and> fst (FindByID 1 (snd (Delete 1 (final [CallCreate 10 todo_a]))))
       = (Todo_zero, Some NotFound)
   \<and> fst (FindByID 1 (snd (run (replicate (2 ^ 64) (CallCreate 20 todo_b))
         (snd (Delete 1 (final [CallCreate 10 todo_a]))))))
       = (\<lparr>ID = 1, Title = ''b'', Completed = False, CreatedAt = 20, UpdatedAt = 20\<rparr>, None)"
proof -
  let ?d = "snd (Delete 1 (final [CallCreate 10 todo_a]))"
  let ?r = "snd (run (replicate (2 ^ 64 - 1) (CallCreate 20 todo_b)) ?d)"
  have stored: "todos (final [CallCreate 10 todo_a]) 1
     = Some \<lparr>ID = 1, Title = ''a'', Completed = False, CreatedAt = 10, UpdatedAt = 10\<rparr>"
    by (simp add: exec_simps scenario_simps)
  have deleted: "fst (Delete 1 (final [CallCreate 10 todo_a])) = None"
    by (simp add: exec_simps scenario_simps)
  have gone: "fst (FindByID 1 ?d) = (Todo_zero, Some NotFound)"
    by (simp add: exec_simps scenario_simps)
  have two: "nextID ?d = 2"
    by (simp add: exec_simps scenario_simps)
  have S: "Suc (2 ^ 64 - 1) = (2 ^ 64 :: nat)" by simp
  have "(2 :: uint) + of_nat (2 ^ 64 - 1) = 1" by simp
  then have one: "nextID ?r = 1"
    by (simp only: nextID_run creates_replicate two)
  have last: "snd (run (replicate (2 ^ 64) (CallCreate 20 todo_b)) ?d) = snd (Create 20 todo_b ?r)"
    using snd_run_replicate_Suc [of "2 ^ 64 - 1" "CallCreate 20 todo_b" ?d]
    by (simp only: S snd_step)
  have made: "todo_b\<lparr>ID := 1, CreatedAt := 20, UpdatedAt := 20\<rparr> =
      \<lparr>ID = 1, Title = ''b'', Completed = False, CreatedAt = 20, UpdatedAt = 20\<rparr>"
    by (simp add: todo_b_def)
  from FindByID_Create [of ?r 20 todo_b]
  have again: "fst (FindByID 1 (snd (run (replicate (2 ^ 64) (CallCreate 20 todo_b)) ?d)))
       = (\<lparr>ID = 1, Title = ''b'', Completed = False, CreatedAt = 20, UpdatedAt = 20\<rparr>, None)"
    by (simp only: one last made)
  from stored deleted gone again show ?thesis by (intro conjI)
qed

subsection \<open>C9: FindByID finds exactly the stored records\<close>

text \<open>
  Claim C9. In every state reached from a fresh repository, \<^verbatim>\<open>FindByID\<close> never changes
  the state; it returns, with no error, the stored record whose \<^verbatim>\<open>ID\<close> field is the id
  asked for when there is such a record, and it returns \<open>todo not found\<close> exactly when
  there is none.
\<close>

theorem FindByID_iff:
  "FindByID i (final cs) =
     (case todos (final cs) i of
        None \<Rightarrow> ((Todo_zero, Some NotFound), final cs)
      | Some t \<Rightarrow> ((t, None), final cs))
   \<and> ((\<exists>k t. todos (final cs) k = Some t \<and> ID t = i) \<longleftrightarrow>
       (\<exists>t. FindByID i (final cs) = ((t, None), final cs) \<and> ID t = i \<and> todos (final cs) i = Some t))
   \<and> ((\<not> (\<exists>k t. todos (final cs) k = Some t \<and> ID t = i)) \<longleftrightarrow>
       FindByID i (final cs) = ((Todo_zero, Some NotFound), final cs))"
proof -
  have eq: "FindByID i (final cs) =
     (case todos (final cs) i of
        None \<Rightarrow> ((Todo_zero, Some NotFound), final cs)
      | Some t \<Rightarrow> ((t, None), final cs))"
    by (simp add: FindByID_def)
  have key: "(\<exists>k t. todos (final cs) k = Some t \<and> ID t = i) \<longleftrightarrow> (\<exists>t. todos (final cs) i = Some t)"
    using keys_final [of cs] by blast
  have found: "(\<exists>k t. todos (final cs) k = Some t \<and> ID t = i) \<longleftrightarrow>
     (\<exists>t. FindByID i (final cs) = ((t, None), final cs) \<and> ID t = i \<and> todos (final cs) i = Some t)"
    unfolding key using keys_final [of cs i] by (auto simp: FindByID_def)
  have missing: "(\<not> (\<exists>k t. todos (final cs) k = Some t \<and> ID t = i)) \<longleftrightarrow>
     FindByID i (final cs) = ((Todo_zero, Some NotFound), final cs)"
    unfolding key by (auto simp: FindByID_def split: option.splits)
  from eq found missing show ?thesis by blast
qed

text \<open>After the scenario of the spec record 2 is found and record 1 is not.\<close>

theorem FindByID_iff_witness:
  "FindByID 2 (final scenario)
      = ((\<lparr>ID = 2, Title = ''b'', Completed = False, CreatedAt = 20, UpdatedAt = 20\<rparr>, None),
         final scenario)
   \<and> FindByID 1 (final scenario) = ((Todo_zero, Some NotFound), final scenario)"
proof -
  have t: "todos (final scenario) 2
      = Some \<lparr>ID = 2, Title = ''b'', Completed = False, CreatedAt = 20, UpdatedAt = 20\<rparr>"
    by (simp add: exec_simps scenario_simps)
  have n: "todos (final scenario) 1 = None"
    by (simp add: exec_simps scenario_simps)
  from FindByID_iff [of 2 scenario] FindByID_iff [of 1 scenario] show ?thesis
    by (simp only: t n option.case)
qed

subsection \<open>C10: the invariant of the store\<close>

text \<open>
  Claim C10, as amended. In every state reached from a fresh repository by a sequence of
  calls, every record is stored under the key that is its \<^verbatim>\<open>ID\<close> field, and the counter
  is one more than the number of creations so far, as a \<^verbatim>\<open>uint\<close>. As long as the
  sequence holds fewer than \<open>2\<^sup>6\<^sup>4 - 1\<close> creations, every stored id is at least 1 and
  strictly less than the counter, the counter is at least 1, and \<^verbatim>\<open>FindByID\<close> of the id
  0 returns \<open>todo not found\<close>.
\<close>

theorem store_invariant:
  "(\<forall>k t. todos (final cs) k = Some t \<longrightarrow> ID t = k)
   \<and> nextID (final cs) = of_nat (Suc (creates cs))
   \<and> (creates cs < 2 ^ 64 - 1 \<longrightarrow>
        (\<forall>k t. todos (final cs) k = Some t \<longrightarrow> 1 \<le> k \<and> k < nextID (final cs)) \<and>
        1 \<le> nextID (final cs) \<and>
        FindByID 0 (final cs) = ((Todo_zero, Some NotFound), final cs))"
proof -
  have keys: "\<forall>k t. todos (final cs) k = Some t \<longrightarrow> ID t = k"
    using keys_final by blast
  have bounded: "(\<forall>k t. todos (final cs) k = Some t \<longrightarrow> 1 \<le> k \<and> k < nextID (final cs)) \<and>
        1 \<le> nextID (final cs) \<and>
        FindByID 0 (final cs) = ((Todo_zero, Some NotFound), final cs)"
    if small: "creates cs < 2 ^ 64 - 1"
  proof -
    have b: "\<forall>k t. todos (final cs) k = Some t \<longrightarrow> 1 \<le> k \<and> k < nextID (final cs)"
      using stored_bounds [OF small] by blast
    then have "todos (final cs) 0 = None"
      by (cases "todos (final cs) 0") auto
    then have "FindByID 0 (final cs) = ((Todo_zero, Some NotFound), final cs)"
      by (simp add: FindByID_def)
    with b nextID_pos [OF small] show ?thesis by blast
  qed
  from keys nextID_final [of cs] bounded show ?thesis by blast
qed

text \<open>After the scenario of the spec the records 2 and 3 are stored and the counter is 4.\<close>

theorem store_invariant_witness:
  "creates scenario < 2 ^ 64 - 1
   \<and> todos (final scenario) 2
       = Some \<lparr>ID = 2, Title = ''b'', Completed = False, CreatedAt = 20, UpdatedAt = 20\<rparr>
   \<and> (2 :: uint) < nextID (final scenario)
   \<and> nextID (final scenario) = 4
   \<and> FindByID 0 (final scenario) = ((Todo_zero, Some NotFound), final scenario)"
proof -
  have c: "creates scenario < 2 ^ 64 - 1"
    by (simp add: creates_def scenario_def)
  have t: "todos (final scenario) 2
      = Some \<lparr>ID = 2, Title = ''b'', Completed = False, CreatedAt = 20, UpdatedAt = 20\<rparr>"
    by (simp add: exec_simps scenario_simps)
  have n: "nextID (final scenario) = 4"
    by (simp add: exec_simps scenario_simps)
  from c t n store_invariant [of scenario] show ?thesis
    by blast
qed

text \<open>
  The claim as it is written, for every reachable state, fails where the counter wraps:
  after \<open>2\<^sup>6\<^sup>4 - 1\<close> creations the counter is 0, which is neither at least 1 nor above
  any stored id; the next creation stores its record under the id 0, and \<^verbatim>\<open>FindByID\<close>
  of 0 returns it.
\<close>

theorem nextID_wrap_counterexample:
  "nextID (final (replicate (2 ^ 64 - 1) (CallCreate 0 todo_a))) = 0 \<and>
   fst (FindByID 0 (final (replicate (2 ^ 64) (CallCreate 0 todo_a)))) =
     (\<lparr>ID = 0, Title = ''a'', Completed = False, CreatedAt = 0, UpdatedAt = 0\<rparr>, None)"
proof -
  let ?r = "final (replicate (2 ^ 64 - 1) (CallCreate 0 todo_a))"
  have S: "Suc (2 ^ 64 - 1) = (2 ^ 64 :: nat)" by simp
  then have "(of_nat (Suc (2 ^ 64 - 1)) :: uint) = 0" by (simp del: of_nat_Suc)
  then have zero: "nextID ?r = 0"
    by (simp only: nextID_final creates_replicate)
  have last: "final (replicate (2 ^ 64) (CallCreate 0 todo_a)) = snd (Create 0 todo_a ?r)"
    using final_replicate_Suc [of "2 ^ 64 - 1" "CallCreate 0 todo_a"]
    by (simp only: S snd_step)
  have stored: "todo_a\<lparr>ID := 0, CreatedAt := 0, UpdatedAt := 0\<rparr> =
      \<lparr>ID = 0, Title = ''a'', Completed = False, CreatedAt = 0, UpdatedAt = 0\<rparr>"
    by (simp add: todo_a_def)
  from FindByID_Create [of ?r 0 todo_a]
  have "fst (FindByID 0 (final (replicate (2 ^ 64) (CallCreate 0 todo_a)))) =
     (\<lparr>ID = 0, Title = ''a'', Completed = False, CreatedAt = 0, UpdatedAt = 0\<rparr>, None)"
    by (simp only: zero last stored)
  with zero show ?thesis by (rule conjI)
qed

end
